theory Spec2Isabelle
  imports Complex_Main "HOL-Library.Word" "HOL-Library.Multiset"
begin

section \<open>Values of the program\<close>

text \<open>
  A JavaScript string is a sequence of UTF-16 code units, and \<open>s[i]\<close> is the one-unit
  string at index \<open>i\<close>, or \<open>undefined\<close> when \<open>i\<close> is not below \<open>s.length\<close>.
  \<open>evaluateGuess\<close> and \<open>computeStatuses\<close> only compare units and use them as property
  keys, so their model is parametric in the type \<open>'a\<close> of units; the language tag, whose
  units are read as numbers by \<open>charCodeAt\<close>, is a list of 16-bit words.
\<close>

type_synonym code_unit = "16 word"
type_synonym jsstring = "code_unit list"

text \<open>The status strings \<open>'correct'\<close>, \<open>'present'\<close> and \<open>'absent'\<close>.\<close>

datatype status = Correct | Present | Absent

text \<open>
  The numbers the program computes are integers far below \<open>2^53\<close>, where a double is
  exact, or \<open>NaN\<close>.
\<close>

datatype jsnum = Num int | NaN

text \<open>\<open>s[i]\<close> on a string: \<open>None\<close> is \<open>undefined\<close>.\<close>

definition char_at :: "'a list \<Rightarrow> nat \<Rightarrow> 'a option" where
  "char_at s i = (if i < length s then Some (s ! i) else None)"

text \<open>
  The object \<open>counts\<close>: its keys are one-unit strings, a missing key reads as
  \<open>undefined\<close> (\<open>None\<close>).
\<close>

type_synonym 'a counts = "'a \<rightharpoonup> jsnum"

text \<open>\<open>(v || 0) + 1\<close>: \<open>undefined\<close>, \<open>NaN\<close> and \<open>0\<close> are falsy.\<close>

fun or_zero_plus_one :: "jsnum option \<Rightarrow> jsnum" where
  "or_zero_plus_one None = Num (0 + 1)"
| "or_zero_plus_one (Some NaN) = Num (0 + 1)"
| "or_zero_plus_one (Some (Num n)) = (if n = 0 then Num (0 + 1) else Num (n + 1))"

text \<open>\<open>v - 1\<close> as in \<open>counts[k] -= 1\<close>: \<open>undefined - 1\<close> is \<open>NaN\<close>.\<close>

fun minus_one :: "jsnum option \<Rightarrow> jsnum" where
  "minus_one (Some (Num n)) = Num (n - 1)"
| "minus_one _ = NaN"

text \<open>\<open>v > 0\<close>: false for \<open>undefined\<close> and \<open>NaN\<close>.\<close>

fun gt_zero :: "jsnum option \<Rightarrow> bool" where
  "gt_zero (Some (Num n)) = (0 < n)"
| "gt_zero _ = False"

section \<open>evaluateGuess\<close>

text \<open>
  \<^verbatim>\<open>for (let i = 0; i < len; i++) { const ch = target[i]; counts[ch] = (counts[ch] || 0) + 1; }\<close>
\<close>

function count_loop :: "'a list \<Rightarrow> nat \<Rightarrow> 'a counts \<Rightarrow> 'a counts" where
  "count_loop target i counts =
     (if i < length target
      then (let ch = target ! i
            in count_loop target (Suc i) (counts(ch \<mapsto> or_zero_plus_one (counts ch))))
      else counts)"
  by pat_completeness auto
termination
  by (relation "measure (\<lambda>(target, i, counts). length target - i)") auto

text \<open>
  First pass.
  \<^verbatim>\<open>if (guess[i] === target[i]) { result[i] = 'correct'; counts[guess[i]] -= 1; }\<close>
  \<open>guess[i]\<close> is \<open>undefined\<close> beyond the guess, and \<open>undefined\<close> is never \<open>===\<close> to a
  string.
\<close>

function first_pass ::
  "'a list \<Rightarrow> 'a list \<Rightarrow> nat \<Rightarrow> status list \<Rightarrow> 'a counts \<Rightarrow> status list \<times> 'a counts" where
  "first_pass guess target i result counts =
     (if i < length target
      then (case char_at guess i of
              None \<Rightarrow> first_pass guess target (Suc i) result counts
            | Some g \<Rightarrow>
                if g = target ! i
                then first_pass guess target (Suc i)
                       (result[i := Correct]) (counts(g \<mapsto> minus_one (counts g)))
                else first_pass guess target (Suc i) result counts)
      else (result, counts))"
  by pat_completeness auto
termination
  by (relation "measure (\<lambda>(guess, target, i, result, counts). length target - i)") auto

text \<open>
  Second pass.
  \<^verbatim>\<open>if (result[i] === 'correct') continue;
  const g = guess[i];
  if (counts[g] > 0) { result[i] = 'present'; counts[g] -= 1; }\<close>
  Beyond the guess \<open>g\<close> is \<open>undefined\<close>; \<open>counts[undefined]\<close> reads the key
  \<open>"undefined"\<close>, which no one-unit key equals, so the test is false there.
\<close>

function second_pass ::
  "'a list \<Rightarrow> 'a list \<Rightarrow> nat \<Rightarrow> status list \<Rightarrow> 'a counts \<Rightarrow> status list \<times> 'a counts" where
  "second_pass guess target i result counts =
     (if i < length target
      then (if result ! i = Correct
            then second_pass guess target (Suc i) result counts
            else (case char_at guess i of
                    None \<Rightarrow> second_pass guess target (Suc i) result counts
                  | Some g \<Rightarrow>
                      if gt_zero (counts g)
                      then second_pass guess target (Suc i)
                             (result[i := Present]) (counts(g \<mapsto> minus_one (counts g)))
                      else second_pass guess target (Suc i) result counts))
      else (result, counts))"
  by pat_completeness auto
termination
  by (relation "measure (\<lambda>(guess, target, i, result, counts). length target - i)") auto

definition evaluateGuess :: "'a list \<Rightarrow> 'a list \<Rightarrow> status list" where
  "evaluateGuess guess target =
     (let len = length target;
          result = replicate len Absent;
          counts = count_loop target 0 Map.empty;
          (result, counts) = first_pass guess target 0 result counts;
          (result, counts) = second_pass guess target 0 result counts
      in result)"


section \<open>The reference two-pass algorithm of the specification\<close>

text \<open>
  The specification's algorithm, on a guess and a target of equal length: a multiset of
  the target's letters; a first pass, left to right, that marks the positions where guess
  and target agree and takes the letter out of the multiset; a second pass, left to
  right, over the positions not marked, that marks \<open>present\<close> and takes the letter out
  when the multiset still holds it, and marks \<open>absent\<close> otherwise.
\<close>

fun ref_first_pass :: "'a list \<Rightarrow> 'a list \<Rightarrow> 'a multiset \<Rightarrow> bool list \<times> 'a multiset" where
  "ref_first_pass (g # gs) (t # ts) m =
     (if g = t
      then (case ref_first_pass gs ts (m - {#g#}) of (marks, m') \<Rightarrow> (True # marks, m'))
      else (case ref_first_pass gs ts m of (marks, m') \<Rightarrow> (False # marks, m')))"
| "ref_first_pass gs ts m = ([], m)"

fun ref_second_pass :: "'a list \<Rightarrow> bool list \<Rightarrow> 'a multiset \<Rightarrow> status list" where
  "ref_second_pass (g # gs) (c # cs) m =
     (if c then Correct # ref_second_pass gs cs m
      else if 0 < count m g then Present # ref_second_pass gs cs (m - {#g#})
      else Absent # ref_second_pass gs cs m)"
| "ref_second_pass gs cs m = []"

definition ref_evaluateGuess :: "'a list \<Rightarrow> 'a list \<Rightarrow> status list" where
  "ref_evaluateGuess guess target =
     (case ref_first_pass guess target (mset target) of
        (marks, remaining) \<Rightarrow> ref_second_pass guess marks remaining)"

section \<open>computeStatuses\<close>

text \<open>\<open>evalSt[i]\<close> on the array of statuses: \<open>None\<close> is \<open>undefined\<close>.\<close>

definition status_at :: "status list \<Rightarrow> nat \<Rightarrow> status option" where
  "status_at evalSt i = (if i < length evalSt then Some (evalSt ! i) else None)"

text \<open>
  The loop over the letters of one attempt.
  \<^verbatim>\<open>const l = g[i]; const st = evalSt[i];
  if (st === 'correct') status[l] = 'correct';
  else if (st === 'present') { if (status[l] !== 'correct') status[l] = 'present'; }
  else { if (!status[l]) status[l] = 'absent'; }\<close>
\<close>

function status_loop ::
  "'a list \<Rightarrow> status list \<Rightarrow> nat \<Rightarrow> ('a \<rightharpoonup> status) \<Rightarrow> ('a \<rightharpoonup> status)" where
  "status_loop g evalSt i status =
     (if i < length g
      then (let l = g ! i; st = status_at evalSt i
            in status_loop g evalSt (Suc i)
                 (if st = Some Correct then status(l \<mapsto> Correct)
                  else if st = Some Present
                  then (if status l \<noteq> Some Correct then status(l \<mapsto> Present) else status)
                  else (if status l = None then status(l \<mapsto> Absent) else status)))
      else status)"
  by pat_completeness auto
termination
  by (relation "measure (\<lambda>(g, evalSt, i, status). length g - i)") auto

text \<open>\<open>attempts.forEach(g => ...)\<close>, on the target word and the attempts.\<close>

fun forEach_attempt :: "'a list \<Rightarrow> 'a list list \<Rightarrow> ('a \<rightharpoonup> status) \<Rightarrow> ('a \<rightharpoonup> status)" where
  "forEach_attempt target [] status = status"
| "forEach_attempt target (g # gs) status =
     forEach_attempt target gs (status_loop g (evaluateGuess g target) 0 status)"

section \<open>Daily selection\<close>

text \<open>
  \<open>Date.now()\<close> is an integer count of milliseconds, the parameter \<open>now\<close>. The
  quotients by \<open>86400000\<close> are taken in the reals. The doubles of the program give the
  same day number: a quotient is rounded by far less than the \<open>1/86400000\<close> that
  separates it from the next integer, and the subtraction of the epoch is exact. The
  product and the sums of the mix are integers below \<open>2^53\<close>, hence exact, for every
  date within twenty thousand years of 2025.
\<close>

text \<open>\<open>x >>> 0\<close> on an integer: its value modulo \<open>2^32\<close>.\<close>

definition to_uint32 :: "int \<Rightarrow> int" where
  "to_uint32 x = x mod 2 ^ 32"

text \<open>\<open>Date.UTC(2025, 0, 1) / 86400000\<close>; the date is 1735689600000 ms after 1970.\<close>

definition epoch :: real where
  "epoch = 1735689600000 / 86400000"

definition dayNumber :: "int \<Rightarrow> int" where
  "dayNumber now = (let today = real_of_int now / 86400000 in \<lfloor>today - epoch\<rfloor>)"

definition dayId :: "int \<Rightarrow> int" where
  "dayId now = \<lfloor>real_of_int now / 86400000\<rfloor>"

text \<open>
  \<^verbatim>\<open>let h = 0; for (let i = 0; i < lang.length; i++) h = (h * 31 + lang.charCodeAt(i)) >>> 0;\<close>
\<close>

function lang_hash :: "jsstring \<Rightarrow> nat \<Rightarrow> int \<Rightarrow> int" where
  "lang_hash lang i h =
     (if i < length lang
      then lang_hash lang (Suc i) (to_uint32 (h * 31 + uint (lang ! i)))
      else h)"
  by pat_completeness auto
termination
  by (relation "measure (\<lambda>(lang, i, h). length lang - i)") auto

text \<open>
  \<open>a % b\<close> on integers: \<open>NaN\<close> when \<open>b\<close> is zero, otherwise the remainder with the
  sign of \<open>a\<close>.
\<close>

definition js_rem :: "int \<Rightarrow> int \<Rightarrow> jsnum" where
  "js_rem a b = (if b = 0 then NaN else Num (sgn a * (\<bar>a\<bar> mod \<bar>b\<bar>)))"

definition dailyIndex :: "'w list \<Rightarrow> jsstring \<Rightarrow> int \<Rightarrow> jsnum" where
  "dailyIndex words lang now =
     (let h = lang_hash lang 0 0;
          mix = to_uint32 (dayNumber now * 1103515245 + 12345 + h)
      in js_rem mix (int (length words)))"

text \<open>\<open>words[idx]\<close>: \<open>undefined\<close> (\<open>None\<close>) unless \<open>idx\<close> is an index of the array.\<close>

fun array_at :: "'w list \<Rightarrow> jsnum \<Rightarrow> 'w option" where
  "array_at xs (Num k) = (if 0 \<le> k \<and> k < int (length xs) then Some (xs ! nat k) else None)"
| "array_at xs NaN = None"

section \<open>The game state\<close>

text \<open>
  The module's variables. The allowed sets are kept as the decoded lists they are built
  from. \<open>showMessage\<close> is modelled by the message it is given; saving and rendering do
  not change the variables and are left out.
\<close>

datatype 'a message = NotEnoughLetters | NotInWordList | YouWin | GameOverWordWas "'a list"

record 'a game =
  WORDS_EN :: "'a list list"
  WORDS_UK :: "'a list list"
  ALLOWED_EN :: "'a list list"
  ALLOWED_UK :: "'a list list"
  currentLang :: jsstring
  targetWord :: "'a list"
  attempts :: "'a list list"
  currentGuess :: "'a list"
  maxAttempts :: nat
  gameOver :: bool
  manualOverride :: "'a list option"

text \<open>The string \<open>'uk'\<close>.\<close>

definition lang_uk :: jsstring where
  "lang_uk = [117, 107]"

text \<open>The string \<open>'en'\<close>.\<close>

definition lang_en :: jsstring where
  "lang_en = [101, 110]"

definition listFor :: "'a game \<Rightarrow> jsstring \<Rightarrow> 'a list list" where
  "listFor st lang = (if lang = lang_uk then WORDS_UK st else WORDS_EN st)"

definition allowedSetFor :: "'a game \<Rightarrow> jsstring \<Rightarrow> 'a list list" where
  "allowedSetFor st lang = (if lang = lang_uk then ALLOWED_UK st else ALLOWED_EN st)"

text \<open>
  \<^verbatim>\<open>const words = listFor(currentLang);
  if (!words.length) return '';
  if (manualOverride && words.includes(manualOverride)) return manualOverride;
  const idx = dailyIndex(words, currentLang);
  return words[idx];\<close>
  The result is a string or \<open>undefined\<close> (\<open>None\<close>); \<open>null\<close> and \<open>''\<close> are falsy.
\<close>

definition pickWord :: "'a game \<Rightarrow> int \<Rightarrow> 'a list option" where
  "pickWord st now =
     (let words = listFor st (currentLang st)
      in if length words = 0 then Some []
         else (case manualOverride st of
                 Some m \<Rightarrow>
                   if m \<noteq> [] \<and> m \<in> set words then Some m
                   else array_at words (dailyIndex words (currentLang st) now)
               | None \<Rightarrow> array_at words (dailyIndex words (currentLang st) now)))"

text \<open>
  The state the module starts in, given the four decoded lists:
  \<^verbatim>\<open>let currentLang = 'en'; let targetWord = ''; let attempts = []; let currentGuess = '';
  let maxAttempts = 6; let gameOver = false; let manualOverride = null;\<close>
\<close>

definition initial_game ::
  "'a list list \<Rightarrow> 'a list list \<Rightarrow> 'a list list \<Rightarrow> 'a list list \<Rightarrow> 'a game" where
  "initial_game words_en words_uk allowed_en allowed_uk =
     \<lparr>WORDS_EN = words_en, WORDS_UK = words_uk,
      ALLOWED_EN = allowed_en, ALLOWED_UK = allowed_uk,
      currentLang = lang_en, targetWord = [], attempts = [], currentGuess = [],
      maxAttempts = 6, gameOver = False, manualOverride = None\<rparr>"

definition computeStatuses :: "'a game \<Rightarrow> ('a \<rightharpoonup> status)" where
  "computeStatuses st = forEach_attempt (targetWord st) (attempts st) Map.empty"

text \<open>
  \<^verbatim>\<open>if (gameOver) return;
  if (currentGuess.length !== targetWord.length) { showMessage('Not enough letters'); return; }
  const guess = currentGuess;
  const allowed = allowedSetFor(currentLang);
  if (allowed.size && !allowed.has(guess) && guess !== targetWord) {
    showMessage('Not in word list'); return; }
  attempts.push(guess); currentGuess = '';
  if (guess === targetWord) { showMessage('You win!'); gameOver = true; }
  else if (attempts.length === maxAttempts) { showMessage(...); gameOver = true; }\<close>
\<close>

definition submitGuess :: "'a game \<Rightarrow> 'a game \<times> 'a message option" where
  "submitGuess st =
     (if gameOver st then (st, None)
      else if length (currentGuess st) \<noteq> length (targetWord st)
      then (st, Some NotEnoughLetters)
      else (let guess = currentGuess st; allowed = allowedSetFor st (currentLang st)
            in if allowed \<noteq> [] \<and> guess \<notin> set allowed \<and> guess \<noteq> targetWord st
               then (st, Some NotInWordList)
               else (let st1 = st\<lparr>attempts := attempts st @ [guess], currentGuess := []\<rparr>
                     in if guess = targetWord st
                        then (st1\<lparr>gameOver := True\<rparr>, Some YouWin)
                        else if length (attempts st1) = maxAttempts st1
                        then (st1\<lparr>gameOver := True\<rparr>, Some (GameOverWordWas (targetWord st)))
                        else (st1, None))))"

section \<open>The keyboard hints of the specification\<close>

text \<open>
  The order \<open>correct > present > absent\<close>, and the strongest status of a list of
  observations (\<open>None\<close> when nothing was observed).
\<close>

fun rank :: "status \<Rightarrow> nat" where
  "rank Absent = 0"
| "rank Present = 1"
| "rank Correct = 2"

fun strongest :: "status list \<Rightarrow> status option" where
  "strongest [] = None"
| "strongest (s # ss) =
     (case strongest ss of
        None \<Rightarrow> Some s
      | Some t \<Rightarrow> Some (if rank t \<le> rank s then s else t))"

text \<open>
  The statuses observed for the letter \<open>l\<close> in the attempts, in order: one for each
  position of each attempt that holds \<open>l\<close>, the status \<open>evaluateGuess\<close> gives the
  position, or \<open>absent\<close> where the attempt is longer than the target and the evaluation
  has no entry.
\<close>

definition observed_in :: "'a list \<Rightarrow> 'a list \<Rightarrow> 'a \<Rightarrow> status list" where
  "observed_in g target l =
     map snd (filter (\<lambda>(x, s). x = l)
       (zip g (evaluateGuess g target @ replicate (length g - length target) Absent)))"

definition observed :: "'a list list \<Rightarrow> 'a list \<Rightarrow> 'a \<Rightarrow> status list" where
  "observed history target l = concat (map (\<lambda>g. observed_in g target l) history)"

section \<open>Notions of the proofs\<close>

text \<open>
  The object \<open>counts\<close> agrees with a multiset when each key holds the multiplicity of
  its letter, and a letter without a key has multiplicity zero.
\<close>

definition agrees :: "'a counts \<Rightarrow> 'a multiset \<Rightarrow> bool" where
  "agrees counts m =
     (\<forall>c. (counts c = None \<and> count m c = 0) \<or> counts c = Some (Num (int (count m c))))"

text \<open>The array of statuses after the marks of a first pass were written over it.\<close>

definition overlay :: "bool list \<Rightarrow> status list \<Rightarrow> status list" where
  "overlay marks res = map (\<lambda>(b, r). if b then Correct else r) (zip marks res)"

text \<open>
  The status the loop of \<open>computeStatuses\<close> acts on: \<open>undefined\<close> takes the last branch,
  as \<open>'absent'\<close> does.
\<close>

fun pad :: "status option \<Rightarrow> status" where
  "pad None = Absent"
| "pad (Some s) = s"

text \<open>What one round of that loop does to the entry of the letter it reads.\<close>

fun hint_step :: "status option \<Rightarrow> status \<Rightarrow> status option" where
  "hint_step cur Correct = Some Correct"
| "hint_step cur Present = (if cur \<noteq> Some Correct then Some Present else cur)"
| "hint_step cur Absent = (if cur = None then Some Absent else cur)"

text \<open>The statuses the loop meets for the letter \<open>l\<close> from position \<open>i\<close> on.\<close>

definition obs_from :: "'a list \<Rightarrow> status list \<Rightarrow> nat \<Rightarrow> 'a \<Rightarrow> status list" where
  "obs_from g evalSt i l =
     map (\<lambda>j. pad (status_at evalSt j)) (filter (\<lambda>j. g ! j = l) [i..<length g])"

declare count_loop.simps [simp del] first_pass.simps [simp del] second_pass.simps [simp del]
declare status_loop.simps [simp del] lang_hash.simps [simp del]

section \<open>Evaluated examples\<close>

text \<open>
  C2. With guess PAPAL and target APPLE the statuses are present, present, correct,
  absent, present.
\<close>

theorem evaluateGuess_PAPAL_APPLE:
  "evaluateGuess ''PAPAL'' ''APPLE'' = [Present, Present, Correct, Absent, Present]"
  by code_simp

text \<open>
  C5, as the code has it. With guess LLAMA and target ALLOY the statuses are present,
  correct, present, absent, absent: ALLOY holds L twice, so both L of the guess are
  marked; it holds A once, so of the two A of the guess that are not in place one is
  present and the other absent.
\<close>

theorem evaluateGuess_LLAMA_ALLOY:
  "evaluateGuess ''LLAMA'' ''ALLOY'' = [Present, Correct, Present, Absent, Absent]"
  by code_simp

text \<open>
  Against C5 as stated (one L marked, the other absent): neither L position of LLAMA is
  absent.
\<close>

theorem evaluateGuess_LLAMA_ALLOY_both_L_marked:
  "evaluateGuess ''LLAMA'' ''ALLOY'' ! 0 = Present \<and> evaluateGuess ''LLAMA'' ''ALLOY'' ! 1 = Correct"
  by code_simp

section \<open>Daily selection\<close>

lemma epoch_eq: "epoch = 20089"
  by (simp add: epoch_def)

lemma dayNumber_dayId: "dayNumber now = dayId now - 20089"
proof -
  have "\<lfloor>real_of_int now / 86400000 - of_int 20089\<rfloor> = \<lfloor>real_of_int now / 86400000\<rfloor> - 20089"
    by (rule floor_diff_of_int)
  then show ?thesis
    by (simp add: dayNumber_def dayId_def epoch_eq)
qed

lemma dayId_div: "dayId now = now div 86400000"
proof -
  have "\<lfloor>real_of_int now / real_of_int 86400000\<rfloor> = now div 86400000"
    by (rule floor_divide_of_int_eq)
  then show ?thesis by (simp add: dayId_def)
qed

lemma to_uint32_range: "0 \<le> to_uint32 x \<and> to_uint32 x < 2 ^ 32"
  by (simp add: to_uint32_def)

lemma js_rem_nonneg:
  assumes "0 \<le> a" "0 < b"
  shows "js_rem a b = Num (a mod b)"
proof (cases "a = 0")
  case True
  then show ?thesis using assms by (simp add: js_rem_def)
next
  case False
  then have "0 < a" using assms by simp
  then show ?thesis using assms by (simp add: js_rem_def)
qed

lemma js_rem_range:
  assumes "0 \<le> a" "0 < b"
  shows "\<exists>k. js_rem a b = Num k \<and> 0 \<le> k \<and> k < b"
proof -
  have "0 \<le> a mod b" "a mod b < b" using assms by simp_all
  then show ?thesis using js_rem_nonneg [OF assms] by blast
qed

lemma dailyIndex_empty: "dailyIndex [] lang now = NaN"
  by (simp add: dailyIndex_def js_rem_def)

text \<open>
  C3. Two timestamps of the same UTC day (the same \<open>dayId\<close>) give the same index, for
  the same words and language tag: the index depends on the time through the day number
  alone.
\<close>

theorem dailyIndex_same_day:
  assumes "dayId now1 = dayId now2"
  shows "dailyIndex words lang now1 = dailyIndex words lang now2"
  using assms by (simp add: dailyIndex_def dayNumber_dayId)

theorem dailyIndex_same_day_witness:
  "dayId 1762128000000 = dayId 1762214399999 \<and>
   dailyIndex [''APPLE'', ''ALLOY'', ''HOUSE''] lang_en 1762128000000 =
   dailyIndex [''APPLE'', ''ALLOY'', ''HOUSE''] lang_en 1762214399999"
  using dailyIndex_same_day [of 1762128000000 1762214399999 "[''APPLE'', ''ALLOY'', ''HOUSE'']" lang_en]
  by (simp add: dayId_div)

text \<open>
  C8. For a word list that is not empty, every language tag and every timestamp, the
  index is an integer \<open>k\<close> with \<open>0 \<le> k < words.length\<close>.
\<close>

theorem dailyIndex_in_range:
  assumes "words \<noteq> []"
  shows "\<exists>k. dailyIndex words lang now = Num k \<and> 0 \<le> k \<and> k < int (length words)"
proof -
  have "0 < int (length words)" using assms by simp
  then show ?thesis
    unfolding dailyIndex_def Let_def
    by (intro js_rem_range) (simp_all add: to_uint32_range)
qed

theorem dailyIndex_in_range_witness:
  "[''APPLE'', ''ALLOY'', ''HOUSE''] \<noteq> [] \<and>
   (\<exists>k. dailyIndex [''APPLE'', ''ALLOY'', ''HOUSE''] lang_uk 1762128000000 = Num k \<and>
        0 \<le> k \<and> k < int (length [''APPLE'', ''ALLOY'', ''HOUSE'']))"
  using dailyIndex_in_range [of "[''APPLE'', ''ALLOY'', ''HOUSE'']" lang_uk 1762128000000]
  by simp

text \<open>
  C6. When the word list of the current language is empty, \<open>pickWord\<close> returns the empty
  string, the value its caller reports as "No words loaded"; \<open>dailyIndex\<close> is not reached
  (alone it would return \<open>NaN\<close>, see \<open>dailyIndex_empty\<close>), and nothing is raised.
\<close>

theorem pickWord_empty_list:
  assumes "listFor st (currentLang st) = []"
  shows "pickWord st now = Some []"
  using assms by (simp add: pickWord_def)

theorem pickWord_empty_list_witness:
  "listFor (initial_game [] [''APPLE''] [] []) (currentLang (initial_game [] [''APPLE''] [] [])) = [] \<and>
   pickWord (initial_game [] [''APPLE''] [] []) 1762128000000 = Some []"
  using pickWord_empty_list [of "initial_game [] [''APPLE''] [] []" 1762128000000]
  by (simp add: listFor_def initial_game_def lang_en_def lang_uk_def)

section \<open>evaluateGuess on guesses of any length\<close>

lemma length_first_pass: "length (fst (first_pass g t i res cnt)) = length res"
proof (induction g t i res cnt rule: first_pass.induct)
  case (1 g t i res cnt)
  then show ?case
    by (subst first_pass.simps) (auto simp: fun_upd_def split: option.splits)
qed

lemma length_second_pass: "length (fst (second_pass g t i res cnt)) = length res"
proof (induction g t i res cnt rule: second_pass.induct)
  case (1 g t i res cnt)
  then show ?case
    by (subst second_pass.simps) (auto simp: fun_upd_def split: option.splits)
qed

lemma evaluateGuess_unfold:
  "evaluateGuess g t =
     fst (second_pass g t 0
       (fst (first_pass g t 0 (replicate (length t) Absent) (count_loop t 0 Map.empty)))
       (snd (first_pass g t 0 (replicate (length t) Absent) (count_loop t 0 Map.empty))))"
  by (simp add: evaluateGuess_def split: prod.splits)

lemma length_evaluateGuess: "length (evaluateGuess g t) = length t"
  by (simp add: evaluateGuess_unfold length_first_pass length_second_pass)

lemma first_pass_beyond:
  "length g \<le> j \<Longrightarrow> fst (first_pass g t i res cnt) ! j = res ! j"
proof (induction g t i res cnt rule: first_pass.induct)
  case (1 g t i res cnt)
  then show ?case
    by (subst first_pass.simps) (auto simp: char_at_def fun_upd_def split: option.splits if_splits)
qed

lemma second_pass_beyond:
  "length g \<le> j \<Longrightarrow> res ! j \<noteq> Correct \<Longrightarrow> fst (second_pass g t i res cnt) ! j = res ! j"
proof (induction g t i res cnt rule: second_pass.induct)
  case (1 g t i res cnt)
  then show ?case
    by (subst second_pass.simps) (auto simp: char_at_def fun_upd_def split: option.splits if_splits)
qed

lemma first_pass_take:
  "length t \<le> n \<Longrightarrow> first_pass (take n g) t i res cnt = first_pass g t i res cnt"
proof (induction g t i res cnt rule: first_pass.induct)
  case (1 g t i res cnt)
  have c: "i < length t \<Longrightarrow> char_at (take n g) i = char_at g i"
    using "1.prems" by (simp add: char_at_def)
  show ?case
    using 1 c
    by (subst first_pass.simps, subst (2) first_pass.simps) (auto simp: fun_upd_def split: option.splits)
qed

lemma second_pass_take:
  "length t \<le> n \<Longrightarrow> second_pass (take n g) t i res cnt = second_pass g t i res cnt"
proof (induction g t i res cnt rule: second_pass.induct)
  case (1 g t i res cnt)
  have c: "i < length t \<Longrightarrow> char_at (take n g) i = char_at g i"
    using "1.prems" by (simp add: char_at_def)
  show ?case
    using 1 c
    by (subst second_pass.simps, subst (2) second_pass.simps) (auto simp: fun_upd_def split: option.splits)
qed

lemma evaluateGuess_take: "evaluateGuess (take (length t) g) t = evaluateGuess g t"
  by (simp add: evaluateGuess_def first_pass_take second_pass_take)

lemma evaluateGuess_beyond:
  assumes "length g \<le> j" "j < length t"
  shows "evaluateGuess g t ! j = Absent"
proof -
  let ?fp = "first_pass g t 0 (replicate (length t) Absent) (count_loop t 0 Map.empty)"
  have "fst ?fp ! j = replicate (length t) Absent ! j"
    using assms(1) by (rule first_pass_beyond)
  then have r1: "fst ?fp ! j = Absent" using assms(2) by simp
  then have "fst (second_pass g t 0 (fst ?fp) (snd ?fp)) ! j = fst ?fp ! j"
    using assms(1) by (intro second_pass_beyond) simp_all
  then show ?thesis
    using r1 by (simp add: evaluateGuess_unfold)
qed


text \<open>
  C10. \<open>evaluateGuess\<close> is total (its three loops terminate, see above), and for every
  guess, shorter or longer than the target: the result has \<open>target.length\<close> statuses;
  the positions from the guess's length on are absent; the characters of the guess from
  the target's length on do not matter. Reading \<open>guess[i]\<close> beyond the guess gives
  \<open>undefined\<close> and raises nothing.
\<close>

theorem evaluateGuess_total_length:
  "length (evaluateGuess guess target) = length target \<and>
   (\<forall>i. length guess \<le> i \<and> i < length target \<longrightarrow> evaluateGuess guess target ! i = Absent) \<and>
   evaluateGuess guess target = evaluateGuess (take (length target) guess) target"
  by (simp add: length_evaluateGuess evaluateGuess_beyond evaluateGuess_take)

theorem evaluateGuess_total_length_witness:
  "length (evaluateGuess ''AB'' ''ABC'') = 3 \<and>
   evaluateGuess ''AB'' ''ABC'' ! 2 = Absent \<and>
   evaluateGuess ''ABCD'' ''ABC'' = evaluateGuess ''ABC'' ''ABC''"
  using evaluateGuess_total_length [of "''AB''" "''ABC''"]
    evaluateGuess_total_length [of "''ABCD''" "''ABC''"]
  by simp

text \<open>
  Against C7 as stated: a guess of two letters against a target of three gives a result,
  not an error.
\<close>

theorem evaluateGuess_length_mismatch_no_error:
  "length ''AB'' \<noteq> length ''ABC'' \<and> evaluateGuess ''AB'' ''ABC'' = [Correct, Correct, Absent]"
  by code_simp

text \<open>
  C7, as the code has it. \<open>evaluateGuess\<close> does not compare the lengths: on a guess whose
  length differs from the target's it returns \<open>target.length\<close> statuses. The check is
  its caller's: \<open>submitGuess\<close>, in a game that is not over, answers a current guess of
  another length than the target with "Not enough letters" and changes nothing, so the
  guess is not added to the attempts.
\<close>

theorem submitGuess_length_guard:
  assumes "length (currentGuess st) \<noteq> length (targetWord st)"
  shows "length (evaluateGuess (currentGuess st) (targetWord st)) = length (targetWord st) \<and>
         (\<not> gameOver st \<longrightarrow> submitGuess st = (st, Some NotEnoughLetters)) \<and>
         attempts (fst (submitGuess st)) = attempts st"
  using assms by (simp add: length_evaluateGuess submitGuess_def)

theorem submitGuess_length_guard_witness:
  "length (currentGuess ((initial_game [''ABC''] [] [] []) \<lparr>targetWord := ''ABC'', currentGuess := ''AB''\<rparr>))
     \<noteq> length (targetWord ((initial_game [''ABC''] [] [] []) \<lparr>targetWord := ''ABC'', currentGuess := ''AB''\<rparr>)) \<and>
   submitGuess ((initial_game [''ABC''] [] [] []) \<lparr>targetWord := ''ABC'', currentGuess := ''AB''\<rparr>)
     = ((initial_game [''ABC''] [] [] []) \<lparr>targetWord := ''ABC'', currentGuess := ''AB''\<rparr>,
        Some NotEnoughLetters)"
  using submitGuess_length_guard
    [of "(initial_game [''ABC''] [] [] []) \<lparr>targetWord := ''ABC'', currentGuess := ''AB''\<rparr>"]
  by (simp add: initial_game_def)

section \<open>evaluateGuess and the reference algorithm\<close>

lemma agrees_empty: "agrees Map.empty {#}"
  by (simp add: agrees_def)

lemma agrees_add:
  assumes "agrees cnt m"
  shows "agrees (cnt(c \<mapsto> or_zero_plus_one (cnt c))) (add_mset c m)"
proof -
  have "cnt c = None \<and> count m c = 0 \<or> cnt c = Some (Num (int (count m c)))"
    using assms by (simp add: agrees_def)
  then have "or_zero_plus_one (cnt c) = Num (int (count m c) + 1)"
    by auto
  then show ?thesis
    using assms by (auto simp: agrees_def)
qed

lemma agrees_gt_zero:
  assumes "agrees cnt m"
  shows "gt_zero (cnt c) = (0 < count m c)"
proof -
  have "cnt c = None \<and> count m c = 0 \<or> cnt c = Some (Num (int (count m c)))"
    using assms by (simp add: agrees_def)
  then show ?thesis by (auto simp flip: count_greater_zero_iff)
qed

lemma agrees_remove:
  assumes "agrees cnt m" "0 < count m c"
  shows "agrees (cnt(c \<mapsto> minus_one (cnt c))) (m - {#c#})"
proof -
  have "cnt c = None \<and> count m c = 0 \<or> cnt c = Some (Num (int (count m c)))"
    using assms(1) by (simp add: agrees_def)
  then have "minus_one (cnt c) = Num (int (count m c) - 1)"
    using assms(2) by auto
  moreover have "int (count m c) - 1 = int (count m c - 1)"
    using assms(2) by simp
  ultimately show ?thesis
    using assms(1) by (auto simp: agrees_def)
qed

lemma count_loop_agrees:
  "agrees cnt m \<Longrightarrow> agrees (count_loop t i cnt) (m + mset (drop i t))"
proof (induction t i cnt arbitrary: m rule: count_loop.induct)
  case (1 t i cnt)
  show ?case
  proof (cases "i < length t")
    case True
    have d: "drop i t = t ! i # drop (Suc i) t"
      using True by (simp add: Cons_nth_drop_Suc)
    have "agrees (count_loop t (Suc i) (cnt(t ! i \<mapsto> or_zero_plus_one (cnt (t ! i)))))
            (add_mset (t ! i) m + mset (drop (Suc i) t))"
      using "1.IH" [OF True refl agrees_add [OF "1.prems"]] .
    then show ?thesis
      using True d by (subst count_loop.simps) (simp add: Let_def)
  next
    case False
    then show ?thesis
      using "1.prems" by (subst count_loop.simps) simp
  qed
qed

lemma count_loop_target: "agrees (count_loop t 0 Map.empty) (mset t)"
  using count_loop_agrees [OF agrees_empty, of t 0] by simp


lemma ref_first_pass_Cons:
  "fst (ref_first_pass (g # gs) (t # ts) m) =
     (g = t) # fst (ref_first_pass gs ts (if g = t then m - {#g#} else m))"
  "snd (ref_first_pass (g # gs) (t # ts) m) =
     snd (ref_first_pass gs ts (if g = t then m - {#g#} else m))"
  by (simp_all split: prod.splits)

lemma overlay_Cons: "overlay (b # bs) (r # rs) = (if b then Correct else r) # overlay bs rs"
  by (simp add: overlay_def)

lemma overlay_Nil: "overlay [] rs = []"
  by (simp add: overlay_def)

lemma first_pass_ref:
  assumes "length g = length t" "length res = length t" "agrees cnt m" "mset (drop i t) \<subseteq># m"
  shows "fst (first_pass g t i res cnt) =
           take i res @ overlay (fst (ref_first_pass (drop i g) (drop i t) m)) (drop i res) \<and>
         agrees (snd (first_pass g t i res cnt)) (snd (ref_first_pass (drop i g) (drop i t) m))"
  using assms
proof (induction g t i res cnt arbitrary: m rule: first_pass.induct)
  case (1 g t i res cnt)
  show ?case
  proof (cases "i < length t")
    case False
    then show ?thesis
      using "1.prems" by (subst (1 2) first_pass.simps) (simp add: overlay_Nil)
  next
    case True
    have dg: "drop i g = g ! i # drop (Suc i) g"
      and dt: "drop i t = t ! i # drop (Suc i) t"
      and dr: "drop i res = res ! i # drop (Suc i) res"
      using True "1.prems" by (simp_all add: Cons_nth_drop_Suc)
    have ca: "char_at g i = Some (g ! i)"
      using True "1.prems" by (simp add: char_at_def)
    have sub: "add_mset (t ! i) (mset (drop (Suc i) t)) \<subseteq># m"
      using "1.prems"(4) dt by simp
    show ?thesis
    proof (cases "g ! i = t ! i")
      case eq: True
      have pos: "0 < count m (g ! i)"
        using sub eq by (metis count_greater_zero_iff insert_subset_eq_iff)
      have ag: "agrees (cnt(g ! i \<mapsto> minus_one (cnt (g ! i)))) (m - {#g ! i#})"
        using "1.prems"(3) pos by (rule agrees_remove)
      have sub': "mset (drop (Suc i) t) \<subseteq># m - {#g ! i#}"
        using sub eq by (simp add: insert_subset_eq_iff)
      have len: "length (res[i := Correct]) = length t"
        using "1.prems" by simp
      note IH = "1.IH"(2) [OF True ca eq "1.prems"(1) len ag sub']
      have tk: "take (Suc i) (res[i := Correct]) = take i res @ [Correct]"
        using True "1.prems" by (simp add: take_Suc_conv_app_nth)
      have fp: "first_pass g t i res cnt =
          first_pass g t (Suc i) (res[i := Correct]) (cnt(g ! i \<mapsto> minus_one (cnt (g ! i))))"
        using True ca eq by (subst first_pass.simps) simp
      show ?thesis
        using IH tk eq by (simp add: fp dg dt dr ref_first_pass_Cons overlay_Cons fun_upd_def del: ref_first_pass.simps)
    next
      case neq: False
      have sub': "mset (drop (Suc i) t) \<subseteq># m"
        using sub by (metis mset_subset_eq_insertD subset_mset.less_imp_le)
      note IH = "1.IH"(3) [OF True ca neq "1.prems"(1,2,3) sub']
      have tk: "take (Suc i) res = take i res @ [res ! i]"
        using True "1.prems" by (simp add: take_Suc_conv_app_nth)
      have fp: "first_pass g t i res cnt = first_pass g t (Suc i) res cnt"
        using True ca neq by (subst first_pass.simps) simp
      show ?thesis
        using IH tk neq by (simp add: fp dg dt dr ref_first_pass_Cons overlay_Cons fun_upd_def del: ref_first_pass.simps)
    qed
  qed
qed

lemma second_pass_ref:
  assumes "length g = length t" "length res = length t" "length marks = length t" "agrees cnt m"
    and "\<forall>j. i \<le> j \<and> j < length t \<longrightarrow> res ! j = (if marks ! j then Correct else Absent)"
  shows "fst (second_pass g t i res cnt) = take i res @ ref_second_pass (drop i g) (drop i marks) m"
  using assms
proof (induction g t i res cnt arbitrary: m rule: second_pass.induct)
  case (1 g t i res cnt)
  show ?case
  proof (cases "i < length t")
    case False
    then show ?thesis
      using "1.prems" by (subst second_pass.simps) simp
  next
    case True
    have dg: "drop i g = g ! i # drop (Suc i) g"
      and dm: "drop i marks = marks ! i # drop (Suc i) marks"
      using True "1.prems" by (simp_all add: Cons_nth_drop_Suc)
    have ca: "char_at g i = Some (g ! i)"
      using True "1.prems" by (simp add: char_at_def)
    have ri: "res ! i = (if marks ! i then Correct else Absent)"
      using True "1.prems"(5) by simp
    have tk: "take (Suc i) res = take i res @ [res ! i]"
      using True "1.prems" by (simp add: take_Suc_conv_app_nth)
    have later: "\<forall>j. Suc i \<le> j \<and> j < length t \<longrightarrow> res ! j = (if marks ! j then Correct else Absent)"
      using "1.prems"(5) by simp
    show ?thesis
    proof (cases "marks ! i")
      case mk: True
      then have c: "res ! i = Correct" using ri by simp
      note IH = "1.IH"(1) [OF True c "1.prems"(1,2,3,4) later]
      have sp: "second_pass g t i res cnt = second_pass g t (Suc i) res cnt"
        using True c by (subst second_pass.simps) simp
      show ?thesis
        using IH tk c mk by (simp add: sp dg dm fun_upd_def)
    next
      case mk: False
      then have c: "res ! i \<noteq> Correct" and a: "res ! i = Absent" using ri by simp_all
      show ?thesis
      proof (cases "gt_zero (cnt (g ! i))")
        case gz: True
        then have pos: "0 < count m (g ! i)"
          using "1.prems"(4) by (simp add: agrees_gt_zero)
        have ag: "agrees (cnt(g ! i \<mapsto> minus_one (cnt (g ! i)))) (m - {#g ! i#})"
          using "1.prems"(4) pos by (rule agrees_remove)
        have len: "length (res[i := Present]) = length t"
          using "1.prems" by simp
        have later': "\<forall>j. Suc i \<le> j \<and> j < length t \<longrightarrow>
            res[i := Present] ! j = (if marks ! j then Correct else Absent)"
          using later by simp
        note IH = "1.IH"(3) [OF True c ca gz "1.prems"(1) len "1.prems"(3) ag later']
        have tk': "take (Suc i) (res[i := Present]) = take i res @ [Present]"
          using True "1.prems" by (simp add: take_Suc_conv_app_nth)
        have sp: "second_pass g t i res cnt =
            second_pass g t (Suc i) (res[i := Present]) (cnt(g ! i \<mapsto> minus_one (cnt (g ! i))))"
          using True c ca gz by (subst second_pass.simps) simp
        show ?thesis
          using IH tk' mk pos by (simp add: sp dg dm fun_upd_def)
      next
        case gz: False
        then have npos: "\<not> 0 < count m (g ! i)"
          using "1.prems"(4) by (simp add: agrees_gt_zero)
        note IH = "1.IH"(4) [OF True c ca gz "1.prems"(1,2,3,4) later]
        have sp: "second_pass g t i res cnt = second_pass g t (Suc i) res cnt"
          using True c ca gz by (subst second_pass.simps) simp
        show ?thesis
          using IH tk a mk npos by (simp add: sp dg dm fun_upd_def)
      qed
    qed
  qed
qed


lemma ref_marks:
  "length gs = length ts \<Longrightarrow>
   fst (ref_first_pass gs ts m) = map (\<lambda>(g, t). g = t) (zip gs ts)"
  by (induction gs ts arbitrary: m rule: list_induct2)
     (simp_all add: ref_first_pass_Cons del: ref_first_pass.simps(1))

lemma length_ref_marks:
  "length gs = length ts \<Longrightarrow> length (fst (ref_first_pass gs ts m)) = length ts"
  by (simp add: ref_marks)

lemma evaluateGuess_ref:
  assumes "length g = length t"
  shows "evaluateGuess g t = ref_evaluateGuess g t"
proof -
  let ?r0 = "replicate (length t) Absent"
  let ?fp = "first_pass g t 0 ?r0 (count_loop t 0 Map.empty)"
  let ?rf = "ref_first_pass g t (mset t)"
  have fp: "fst ?fp = overlay (fst ?rf) ?r0 \<and> agrees (snd ?fp) (snd ?rf)"
    using first_pass_ref [OF assms, of ?r0 "count_loop t 0 Map.empty" "mset t" 0]
    by (simp add: count_loop_target)
  have lm: "length (fst ?rf) = length t"
    using assms by (rule length_ref_marks)
  have lr: "length (fst ?fp) = length t"
    by (simp add: length_first_pass)
  have "\<forall>j. 0 \<le> j \<and> j < length t \<longrightarrow> fst ?fp ! j = (if fst ?rf ! j then Correct else Absent)"
    using fp lm by (simp add: overlay_def)
  then have "fst (second_pass g t 0 (fst ?fp) (snd ?fp)) =
      take 0 (fst ?fp) @ ref_second_pass (drop 0 g) (drop 0 (fst ?rf)) (snd ?rf)"
    using assms lr lm fp by (intro second_pass_ref) simp_all
  then show ?thesis
    by (simp add: evaluateGuess_unfold ref_evaluateGuess_def split: prod.splits)
qed

text \<open>
  C1. On a guess and a target of equal length \<open>evaluateGuess\<close> returns what the
  reference two-pass algorithm of the specification returns.
\<close>

theorem evaluateGuess_is_reference:
  assumes "length guess = length target"
  shows "evaluateGuess guess target = ref_evaluateGuess guess target"
  using assms by (rule evaluateGuess_ref)

theorem evaluateGuess_is_reference_witness:
  "length ''PAPAL'' = length ''APPLE'' \<and>
   evaluateGuess ''PAPAL'' ''APPLE'' = ref_evaluateGuess ''PAPAL'' ''APPLE''"
  using evaluateGuess_is_reference [of "''PAPAL''" "''APPLE''"] by simp

lemma length_filter_disj:
  "(\<And>x. \<not> (P x \<and> Q x)) \<Longrightarrow>
   length (filter (\<lambda>x. P x \<or> Q x) xs) = length (filter P xs) + length (filter Q xs)"
  by (induction xs) auto

lemma ref_second_pass_correct_total:
  "length gs = length cs \<Longrightarrow>
   length (filter (\<lambda>s. s = Correct) (ref_second_pass gs cs m)) = length (filter (\<lambda>b. b) cs)"
  by (induction gs cs arbitrary: m rule: list_induct2) simp_all

lemma ref_second_pass_correct:
  "length gs = length cs \<Longrightarrow>
   length (filter (\<lambda>(x, s). x = c \<and> s = Correct) (zip gs (ref_second_pass gs cs m))) =
   length (filter (\<lambda>(x, b). x = c \<and> b) (zip gs cs))"
  by (induction gs cs arbitrary: m rule: list_induct2) simp_all

lemma ref_second_pass_present:
  "length gs = length cs \<Longrightarrow>
   length (filter (\<lambda>(x, s). x = c \<and> s = Present) (zip gs (ref_second_pass gs cs m))) \<le> count m c"
proof (induction gs cs arbitrary: m rule: list_induct2)
  case Nil
  then show ?case by simp
next
  case (Cons g gs b cs)
  show ?case
  proof (cases "\<not> b \<and> 0 < count m g")
    case True
    have "length (filter (\<lambda>(x, s). x = c \<and> s = Present)
            (zip gs (ref_second_pass gs cs (m - {#g#})))) \<le> count (m - {#g#}) c"
      by (rule Cons.IH)
    then show ?thesis
      using True by (cases "g = c") (auto simp del: count_greater_zero_iff)
  next
    case False
    have "length (filter (\<lambda>(x, s). x = c \<and> s = Present)
            (zip gs (ref_second_pass gs cs m))) \<le> count m c"
      by (rule Cons.IH)
    then show ?thesis using False by auto
  qed
qed

lemma ref_first_pass_remaining:
  "length gs = length ts \<Longrightarrow> mset ts \<subseteq># m \<Longrightarrow>
   count (snd (ref_first_pass gs ts m)) c +
     length (filter (\<lambda>(x, b). x = c \<and> b) (zip gs (fst (ref_first_pass gs ts m)))) = count m c"
proof (induction gs ts arbitrary: m rule: list_induct2)
  case Nil
  then show ?case by simp
next
  case (Cons g gs t ts)
  have sub: "add_mset t (mset ts) \<subseteq># m" using Cons.prems by simp
  show ?case
  proof (cases "g = t")
    case True
    have pos: "0 < count m t"
      using sub by (metis count_greater_zero_iff insert_subset_eq_iff)
    have "mset ts \<subseteq># m - {#t#}"
      using sub by (simp add: insert_subset_eq_iff)
    then have "count (snd (ref_first_pass gs ts (m - {#t#}))) c +
        length (filter (\<lambda>(x, b). x = c \<and> b) (zip gs (fst (ref_first_pass gs ts (m - {#t#}))))) =
        count (m - {#t#}) c"
      by (rule Cons.IH)
    then show ?thesis
      using True pos
      by (cases "t = c") (simp_all add: ref_first_pass_Cons del: ref_first_pass.simps(1))
  next
    case False
    have "mset ts \<subseteq># m"
      using sub by (metis mset_subset_eq_insertD subset_mset.less_imp_le)
    then have "count (snd (ref_first_pass gs ts m)) c +
        length (filter (\<lambda>(x, b). x = c \<and> b) (zip gs (fst (ref_first_pass gs ts m)))) = count m c"
      by (rule Cons.IH)
    then show ?thesis
      using False by (simp add: ref_first_pass_Cons del: ref_first_pass.simps(1))
  qed
qed

lemma ref_evaluateGuess_unfold:
  "ref_evaluateGuess g t =
     ref_second_pass g (fst (ref_first_pass g t (mset t))) (snd (ref_first_pass g t (mset t)))"
  by (simp add: ref_evaluateGuess_def split: prod.splits)

lemma ref_correct_count:
  assumes "length g = length t"
  shows "length (filter (\<lambda>s. s = Correct) (ref_evaluateGuess g t)) =
         length (filter (\<lambda>(x, y). x = y) (zip g t))"
proof -
  have "length (filter (\<lambda>s. s = Correct) (ref_evaluateGuess g t)) =
        length (filter (\<lambda>b. b) (map (\<lambda>(x, y). x = y) (zip g t)))"
    using assms
    by (simp add: ref_evaluateGuess_unfold ref_second_pass_correct_total length_ref_marks ref_marks)
  also have "\<dots> = length (filter (\<lambda>(x, y). x = y) (zip g t))"
    by (simp add: filter_map comp_def)
  finally show ?thesis .
qed

lemma ref_marked_bound:
  assumes "length g = length t"
  shows "length (filter (\<lambda>(x, s). x = c \<and> (s = Correct \<or> s = Present))
           (zip g (ref_evaluateGuess g t))) \<le> count_list t c"
proof -
  let ?marks = "fst (ref_first_pass g t (mset t))"
  let ?rem = "snd (ref_first_pass g t (mset t))"
  let ?z = "zip g (ref_evaluateGuess g t)"
  have lm: "length g = length ?marks"
    using assms by (simp add: length_ref_marks)
  have split: "length (filter (\<lambda>(x, s). x = c \<and> (s = Correct \<or> s = Present)) ?z) =
      length (filter (\<lambda>(x, s). x = c \<and> s = Correct) ?z) +
      length (filter (\<lambda>(x, s). x = c \<and> s = Present) ?z)"
  proof -
    have "(\<lambda>(x, s). x = c \<and> (s = Correct \<or> s = Present)) =
          (\<lambda>p. (case p of (x, s) \<Rightarrow> x = c \<and> s = Correct) \<or> (case p of (x, s) \<Rightarrow> x = c \<and> s = Present))"
      by auto
    then show ?thesis
      by (simp only:) (rule length_filter_disj, auto)
  qed
  have c: "length (filter (\<lambda>(x, s). x = c \<and> s = Correct) ?z) =
      length (filter (\<lambda>(x, b). x = c \<and> b) (zip g ?marks))"
    using lm by (simp add: ref_evaluateGuess_unfold ref_second_pass_correct)
  have p: "length (filter (\<lambda>(x, s). x = c \<and> s = Present) ?z) \<le> count ?rem c"
    using lm by (simp add: ref_evaluateGuess_unfold ref_second_pass_present)
  have r: "count ?rem c + length (filter (\<lambda>(x, b). x = c \<and> b) (zip g ?marks)) = count (mset t) c"
    using assms by (intro ref_first_pass_remaining) simp_all
  show ?thesis
    using split c p r by (simp add: count_mset)
qed

text \<open>
  C4. On a guess and a target of equal length, the result holds as many \<open>correct\<close> as
  there are positions where guess and target agree, and for each letter \<open>c\<close> the
  positions of the guess that hold \<open>c\<close> and are marked \<open>correct\<close> or \<open>present\<close> are
  at most as many as the occurrences of \<open>c\<close> in the target.
\<close>

theorem evaluateGuess_marks_bounded:
  assumes "length guess = length target"
  shows "length (filter (\<lambda>s. s = Correct) (evaluateGuess guess target)) =
           length (filter (\<lambda>(x, y). x = y) (zip guess target)) \<and>
         length (filter (\<lambda>(x, s). x = c \<and> (s = Correct \<or> s = Present))
           (zip guess (evaluateGuess guess target))) \<le> count_list target c"
  using assms by (simp add: evaluateGuess_ref ref_correct_count ref_marked_bound)


theorem evaluateGuess_marks_bounded_witness:
  "length ''LLAMA'' = length ''ALLOY'' \<and>
   length (filter (\<lambda>s. s = Correct) (evaluateGuess ''LLAMA'' ''ALLOY'')) =
     length (filter (\<lambda>(x, y). x = y) (zip ''LLAMA'' ''ALLOY'')) \<and>
   length (filter (\<lambda>(x, s). x = CHR ''A'' \<and> (s = Correct \<or> s = Present))
     (zip ''LLAMA'' (evaluateGuess ''LLAMA'' ''ALLOY''))) \<le> count_list ''ALLOY'' CHR ''A''"
  using evaluateGuess_marks_bounded [of "''LLAMA''" "''ALLOY''" "CHR ''A''"] by simp

section \<open>computeStatuses\<close>

lemma status_loop_fold:
  "status_loop g evalSt i status l = foldl hint_step (status l) (obs_from g evalSt i l)"
proof (induction g evalSt i status rule: status_loop.induct)
  case (1 g evalSt i status)
  show ?case
  proof (cases "i < length g")
    case False
    then show ?thesis
      by (subst status_loop.simps) (simp add: obs_from_def)
  next
    case True
    let ?st = "status_at evalSt i"
    let ?status' = "(if ?st = Some Correct then status(g ! i \<mapsto> Correct)
                  else if ?st = Some Present
                  then (if status (g ! i) \<noteq> Some Correct then status(g ! i \<mapsto> Present) else status)
                  else (if status (g ! i) = None then status(g ! i \<mapsto> Absent) else status))"
    have step: "?status' l = (if g ! i = l then hint_step (status l) (pad ?st) else status l)"
      by (cases ?st rule: pad.cases; cases "pad ?st") auto
    have up: "[i..<length g] = i # [Suc i..<length g]"
      using True by (simp add: upt_conv_Cons)
    have IH: "status_loop g evalSt (Suc i) ?status' l =
        foldl hint_step (?status' l) (obs_from g evalSt (Suc i) l)"
      using "1.IH" [OF True refl refl] .
    have "status_loop g evalSt i status = status_loop g evalSt (Suc i) ?status'"
      using True by (subst status_loop.simps) (simp add: Let_def)
    then show ?thesis
      using IH step by (simp add: obs_from_def up)
  qed
qed

lemma forEach_attempt_fold:
  "forEach_attempt target gs status l =
     foldl hint_step (status l)
       (concat (map (\<lambda>g. obs_from g (evaluateGuess g target) 0 l) gs))"
  by (induction gs arbitrary: status) (simp_all add: status_loop_fold)

lemma zip_nth_upt:
  "length xs \<le> length ys \<Longrightarrow> zip xs ys = map (\<lambda>j. (xs ! j, ys ! j)) [0..<length xs]"
  by (rule nth_equalityI) simp_all

lemma obs_from_observed_in:
  "obs_from g (evaluateGuess g target) 0 l = observed_in g target l"
proof -
  let ?e = "evaluateGuess g target"
  let ?p = "?e @ replicate (length g - length target) Absent"
  have le: "length g \<le> length ?p"
    by (simp add: length_evaluateGuess)
  have pd: "j < length g \<Longrightarrow> pad (status_at ?e j) = ?p ! j" for j
    by (simp add: status_at_def nth_append length_evaluateGuess)
  have "observed_in g target l =
      map snd (filter (\<lambda>(x, s). x = l) (map (\<lambda>j. (g ! j, ?p ! j)) [0..<length g]))"
    using zip_nth_upt [OF le] by (simp add: observed_in_def)
  also have "\<dots> = map (\<lambda>j. ?p ! j) (filter (\<lambda>j. g ! j = l) [0..<length g])"
    by (simp add: filter_map comp_def)
  also have "\<dots> = map (\<lambda>j. pad (status_at ?e j)) (filter (\<lambda>j. g ! j = l) [0..<length g])"
    by (rule map_cong) (simp_all add: pd)
  finally show ?thesis
    by (simp add: obs_from_def)
qed

lemma observed_in_full_length:
  "length g \<le> length target \<Longrightarrow>
   observed_in g target l = map snd (filter (\<lambda>(x, s). x = l) (zip g (evaluateGuess g target)))"
  by (simp add: observed_in_def)

lemma computeStatuses_fold:
  "computeStatuses st l = foldl hint_step None (observed (attempts st) (targetWord st) l)"
  by (simp add: computeStatuses_def forEach_attempt_fold obs_from_observed_in observed_def)

lemma strongest_set:
  "strongest ss =
     (if Correct \<in> set ss then Some Correct
      else if Present \<in> set ss then Some Present
      else if ss \<noteq> [] then Some Absent else None)"
proof (induction ss)
  case Nil
  then show ?case by simp
next
  case (Cons s ss)
  then show ?case
    by (cases s) (auto split: option.splits)
qed

lemma foldl_hint_step_set:
  "foldl hint_step cur ss =
     (if Correct \<in> set ss \<or> cur = Some Correct then Some Correct
      else if Present \<in> set ss \<or> cur = Some Present then Some Present
      else if ss \<noteq> [] \<or> cur = Some Absent then Some Absent else None)"
proof (induction ss arbitrary: cur)
  case Nil
  show ?case
  proof (cases cur)
    case None
    then show ?thesis by simp
  next
    case (Some s)
    then show ?thesis by (cases s) simp_all
  qed
next
  case (Cons s ss)
  show ?case
  proof (cases cur)
    case None
    then show ?thesis using Cons [of "hint_step cur s"] by (cases s) auto
  next
    case (Some c)
    then show ?thesis using Cons [of "hint_step cur s"] by (cases s; cases c) auto
  qed
qed

lemma computeStatuses_strongest:
  "computeStatuses st l = strongest (observed (attempts st) (targetWord st) l)"
  by (simp add: computeStatuses_fold foldl_hint_step_set strongest_set)

text \<open>
  C9. For every attempt history and every letter, the hint \<open>computeStatuses\<close> gives
  the letter is the strongest status observed for it in any position of any attempt,
  under \<open>correct > present > absent\<close>, and no hint when the letter was never guessed.
  So a \<open>correct\<close> observation anywhere in the history gives \<open>correct\<close>, whatever
  comes before or after, and a \<open>present\<close> one gives \<open>present\<close> unless there is a
  \<open>correct\<close> one. The map is a function of the attempts and the target, so
  recomputing it gives the same map. The observations of an attempt no longer than the
  target are the statuses \<open>evaluateGuess\<close> gives its positions (see
  \<open>observed_in_full_length\<close>); a position beyond the target's length has no status and
  counts as an \<open>absent\<close> observation.
\<close>

theorem computeStatuses_strongest_observed:
  "computeStatuses st l = strongest (observed (attempts st) (targetWord st) l) \<and>
   (Correct \<in> set (observed (attempts st) (targetWord st) l) \<longrightarrow>
      computeStatuses st l = Some Correct) \<and>
   (Present \<in> set (observed (attempts st) (targetWord st) l) \<and>
    Correct \<notin> set (observed (attempts st) (targetWord st) l) \<longrightarrow>
      computeStatuses st l = Some Present)"
  by (simp add: computeStatuses_strongest strongest_set)

theorem computeStatuses_strongest_observed_witness:
  "observed [''LLAMA'', ''ALLOY''] ''ALLOY'' CHR ''L'' = [Present, Correct, Correct, Correct] \<and>
   computeStatuses ((initial_game [''ALLOY''] [] [] [])
      \<lparr>targetWord := ''ALLOY'', attempts := [''LLAMA'', ''ALLOY'']\<rparr>) CHR ''L'' = Some Correct \<and>
   observed [''LLAMA'', ''PAPAL''] ''ALLOY'' CHR ''A'' = [Present, Absent, Present, Absent] \<and>
   computeStatuses ((initial_game [''ALLOY''] [] [] [])
      \<lparr>targetWord := ''ALLOY'', attempts := [''LLAMA'', ''PAPAL'']\<rparr>) CHR ''A'' = Some Present"
proof -
  have l: "observed [''LLAMA'', ''ALLOY''] ''ALLOY'' CHR ''L'' = [Present, Correct, Correct, Correct]"
    by code_simp
  have a: "observed [''LLAMA'', ''PAPAL''] ''ALLOY'' CHR ''A'' = [Present, Absent, Present, Absent]"
    by code_simp
  show ?thesis
    using l a
      computeStatuses_strongest_observed [of "(initial_game [''ALLOY''] [] [] [])
        \<lparr>targetWord := ''ALLOY'', attempts := [''LLAMA'', ''ALLOY'']\<rparr>" "CHR ''L''"]
      computeStatuses_strongest_observed [of "(initial_game [''ALLOY''] [] [] [])
        \<lparr>targetWord := ''ALLOY'', attempts := [''LLAMA'', ''PAPAL'']\<rparr>" "CHR ''A''"]
    by (simp add: initial_game_def)
qed

end
